theory Spec2Isabelle
  imports Main "HOL-Library.Sublist" "HOL-Library.Log_Nat"
begin

section \<open>JavaScript strings\<close>

text \<open>
  The pages under \<^verbatim>\<open>src/src/pages\<close> inspect file names, MIME types and the header row of
  a CSV file with the string methods \<^verbatim>\<open>endsWith\<close>, \<^verbatim>\<open>includes\<close>, \<^verbatim>\<open>toLowerCase\<close>,
  \<^verbatim>\<open>split\<close>, \<^verbatim>\<open>slice\<close> and \<^verbatim>\<open>join\<close>. A string is a \<^typ>\<open>string\<close>; each method is a
  recursive function that computes what the method returns. \<^verbatim>\<open>toLowerCase\<close> is
  modelled on the letters A to Z; every other character is left as it is. The column
  names the page looks for are ASCII, and no character outside ASCII has a lower-case
  form that completes one of them, so the searches of the page agree with this model.
  \<open>includesStr\<close> is \<^verbatim>\<open>includes\<close>.
\<close>

fun startsWith :: "string \<Rightarrow> string \<Rightarrow> bool" where
  "startsWith s [] = True"
| "startsWith [] (c # cs) = False"
| "startsWith (x # xs) (c # cs) = (x = c \<and> startsWith xs cs)"

definition endsWith :: "string \<Rightarrow> string \<Rightarrow> bool" where
  "endsWith s t = startsWith (rev s) (rev t)"

fun includesStr :: "string \<Rightarrow> string \<Rightarrow> bool" where
  "includesStr [] t = (t = [])"
| "includesStr (x # xs) t = (startsWith (x # xs) t \<or> includesStr xs t)"

definition toLowerChar :: "char \<Rightarrow> char" where
  "toLowerChar c =
     (case map_of (zip ''ABCDEFGHIJKLMNOPQRSTUVWXYZ'' ''abcdefghijklmnopqrstuvwxyz'') c of
        Some l \<Rightarrow> l
      | None \<Rightarrow> c)"

definition toLowerCase :: "string \<Rightarrow> string" where
  "toLowerCase s = map toLowerChar s"

fun split :: "char \<Rightarrow> string \<Rightarrow> string list" where
  "split sep [] = [[]]"
| "split sep (c # cs) =
     (if c = sep then [] # split sep cs
      else (case split sep cs of [] \<Rightarrow> [[c]] | r # rs \<Rightarrow> (c # r) # rs))"

fun join :: "string \<Rightarrow> string list \<Rightarrow> string" where
  "join sep [] = []"
| "join sep [x] = x"
| "join sep (x # y # ys) = x @ sep @ join sep (y # ys)"

section \<open>JavaScript numbers\<close>

text \<open>
  A finite JavaScript number is an IEEE 754 binary64 value. It is modelled by its exact
  value, a rational; \<open>fl\<close> rounds a rational to the nearest value with a 53 bit
  significand, ties to the even significand. The exponent range is left open: the
  numbers of these pages (byte counts, accuracies between 0 and 1, percentages) are far
  from overflow and underflow. \<open>NaN\<close> and the infinities are not modelled.
\<close>

type_synonym number = rat

definition pow2 :: "int \<Rightarrow> rat" where
  "pow2 e = (if 0 \<le> e then 2 ^ nat e else 1 / 2 ^ nat (- e))"

text \<open>For \<open>0 < x\<close>, \<open>ilog2 x\<close> is the exponent \<open>e\<close> with \<open>2\<^sup>e \<le> x < 2\<^sup>e\<^sup>+\<^sup>1\<close>.\<close>

definition ilog2 :: "rat \<Rightarrow> int" where
  "ilog2 x = (if 1 \<le> x then bitlen \<lfloor>x\<rfloor> - 1 else - bitlen (\<lceil>1 / x\<rceil> - 1))"

definition rne :: "rat \<Rightarrow> int" where
  "rne y =
     (let n = \<lfloor>y\<rfloor>; r = y - of_int n
      in if r < 1 / 2 then n else if 1 / 2 < r then n + 1 else if even n then n else n + 1)"

definition fl :: "rat \<Rightarrow> number" where
  "fl x =
     (if x = 0 then 0
      else (let u = pow2 (ilog2 \<bar>x\<bar> - 52) in sgn x * of_int (rne (\<bar>x\<bar> / u)) * u))"

text \<open>
  The number a decimal literal denotes, in the source or in a JSON body: \<open>0.87\<close> is
  \<open>number_of_decimal 87 2\<close>. The number an unsigned integer of the browser's interfaces
  (a byte count) becomes is \<open>number_of_nat\<close>.
\<close>

definition number_of_decimal :: "int \<Rightarrow> nat \<Rightarrow> number" where
  "number_of_decimal m k = fl (of_int m / 10 ^ k)"

definition number_of_nat :: "nat \<Rightarrow> number" where
  "number_of_nat n = fl (of_nat n)"

definition js_mul :: "number \<Rightarrow> number \<Rightarrow> number" where
  "js_mul a b = fl (a * b)"

definition js_div :: "number \<Rightarrow> number \<Rightarrow> number" where
  "js_div a b = fl (a / b)"

text \<open>\<^verbatim>\<open>Math.round\<close>: the nearest integer, a tie going towards plus infinity.\<close>

definition Math_round :: "number \<Rightarrow> int" where
  "Math_round x = \<lfloor>x + 1 / 2\<rfloor>"

definition digit :: "nat \<Rightarrow> char" where
  "digit d = ''0123456789'' ! d"

fun decimal :: "nat \<Rightarrow> string" where
  "decimal n = (if n < 10 then [digit n] else decimal (n div 10) @ [digit (n mod 10)])"

declare decimal.simps [simp del]

text \<open>
  \<^verbatim>\<open>Number.prototype.toFixed\<close> as ECMA-262 defines it on the exact value: the sign, then
  the integer \<open>n\<close> nearest to \<open>x * 10 ^ f\<close> (the larger one on a tie), padded with
  zeros to \<open>f + 1\<close> digits and split by the decimal point. From \<open>10 ^ 21\<close> on the method
  switches to the exponential notation, which is outside this model (\<open>None\<close>).
\<close>

definition toFixed :: "nat \<Rightarrow> number \<Rightarrow> string option" where
  "toFixed f x =
     (let s = (if x < 0 then ''-'' else []); y = \<bar>x\<bar>
      in if 10 ^ 21 \<le> y then None
         else
           (let n = nat \<lfloor>y * 10 ^ f + 1 / 2\<rfloor>; m = decimal n
            in if f \<noteq> 0
               then
                 (let m' = (if length m \<le> f
                            then replicate (f + 1 - length m) (CHR ''0'') @ m else m);
                      k = length m'
                  in Some (s @ take (k - f) m' @ ''.'' @ drop (k - f) m'))
               else Some (s @ m)))"

text \<open>
  The text of a number placed in JSX, for an integer below \<open>10 ^ 21\<close> in magnitude: its
  decimal digits. Other values are outside this model (\<open>None\<close>).
\<close>

definition Number_toString :: "number \<Rightarrow> string option" where
  "Number_toString x =
     (if of_int \<lfloor>x\<rfloor> = x \<and> \<bar>x\<bar> < 10 ^ 21
      then Some ((if x < 0 then ''-'' else []) @ decimal (nat \<lfloor>\<bar>x\<bar>\<rfloor>))
      else None)"

section \<open>The upload page: \<^verbatim>\<open>UploadSubmission.tsx\<close>\<close>

subsection \<open>Data\<close>

text \<open>
  A \<^verbatim>\<open>File\<close> as the page reads it: its name, its MIME type, its size in bytes and the text
  that \<^verbatim>\<open>FileReader.readAsText\<close> delivers. The size and the text are independent fields,
  so a statement about the size holds whatever the content is.
\<close>

record File =
  file_name :: string
  file_type :: string
  file_size :: nat
  file_text :: string

record SubmissionResult =
  item_accuracy :: number
  brand_accuracy :: "number option"
  l0_accuracy :: "number option"
  l1_accuracy :: "number option"
  l2_accuracy :: "number option"
  l3_accuracy :: "number option"
  l4_accuracy :: "number option"
  timestamp :: string
  submissionsRemaining :: number

datatype toast = ToastError string | ToastSuccess string

datatype request = GetSubmissionsRemaining | PostUpload File

text \<open>
  The component's state is the eight \<^verbatim>\<open>useState\<close>/\<^verbatim>\<open>useRef\<close> cells of the source, and two
  logs of what the page did to the outside: the notifications raised with
  \<^verbatim>\<open>toast.error\<close>/\<^verbatim>\<open>toast.success\<close> and the HTTP requests issued through axios, both
  oldest first. \<open>fileSel\<close> is the cell \<^verbatim>\<open>file\<close> and \<open>remaining\<close> the cell
  \<^verbatim>\<open>submissionsRemaining\<close>; \<open>fileInputValue\<close> is \<^verbatim>\<open>fileInputRef.current.value\<close>, \<open>None\<close>
  while the ref is null. What the page writes with \<^verbatim>\<open>console.error\<close> is left out.
\<close>

record state =
  fileSel :: "File option"
  isDragging :: bool
  isUploading :: bool
  uploadProgress :: number
  result :: "SubmissionResult option"
  csvPreview :: "string list"
  remaining :: "number option"
  fileInputValue :: "string option"
  toasts :: "toast list"
  requests :: "request list"

definition toast_error :: "string \<Rightarrow> state \<Rightarrow> state" where
  "toast_error msg st = st\<lparr>toasts := toasts st @ [ToastError msg]\<rparr>"

definition toast_success :: "string \<Rightarrow> state \<Rightarrow> state" where
  "toast_success msg st = st\<lparr>toasts := toasts st @ [ToastSuccess msg]\<rparr>"

text \<open>The state of a freshly mounted component, before any effect has run.\<close>

definition initial :: state where
  "initial = \<lparr>fileSel = None, isDragging = False, isUploading = False, uploadProgress = 0,
     result = None, csvPreview = [], remaining = None, fileInputValue = Some [],
     toasts = [], requests = []\<rparr>"

subsection \<open>Selecting a file\<close>

text \<open>
  \<^verbatim>\<open>validateAndSetFile\<close> runs in two parts. The synchronous part checks the name, the type
  and the size, starts the read and stores the file. It returns the new state and the
  file handed to \<^verbatim>\<open>reader.readAsText\<close>, if any. The callback \<^verbatim>\<open>reader.onload\<close> runs
  later, when the browser has read the text; its \<^verbatim>\<open>return\<close> leaves the callback only.
\<close>

definition validateAndSetFile :: "File \<Rightarrow> state \<Rightarrow> state \<times> File option" where
  "validateAndSetFile f st =
     (if \<not> endsWith (file_name f) ''.csv'' \<and> file_type f \<noteq> ''text/csv''
      then (toast_error ''Only CSV files are allowed'' st, None)
      else if file_size f > 5 * 1024 * 1024
      then (toast_error ''File size exceeds 5MB limit'' st, None)
      else (st\<lparr>fileSel := Some f, result := None\<rparr>, Some f))"

definition requiredColumns :: "string list" where
  "requiredColumns =
     [''details_brand'', ''l0_category'', ''l1_category'', ''l2_category'',
      ''l3_category'', ''l4_category'']"

definition walmart_id_message :: string where
  "walmart_id_message =
     ''CSV must contain a column named '' @ [CHR 0x22] @ ''walmart_id'' @ [CHR 0x22]"

definition reader_onload :: "string option \<Rightarrow> state \<Rightarrow> state" where
  "reader_onload res st =
     (let text = (case res of None \<Rightarrow> [] | Some s \<Rightarrow> s);
          rows = take 5 (split (CHR 0x0A) text);
          st1 = st\<lparr>csvPreview := rows\<rparr>
      in case rows of
           [] \<Rightarrow> st1
         | header # _ \<Rightarrow>
             (let headers = toLowerCase header in
              if \<not> includesStr headers ''walmart_id''
              then toast_error walmart_id_message st1
              else
                (let missingColumns = filter (\<lambda>col. \<not> includesStr headers col) requiredColumns
                 in if length missingColumns > 0
                    then toast_error
                           (''CSV is missing required columns: '' @ join '', '' missingColumns) st1
                    else st1)))"

text \<open>
  One whole selection: the synchronous part, then the completion of the read it started,
  with nothing else in between.
\<close>

definition selectFile :: "File \<Rightarrow> state \<Rightarrow> state" where
  "selectFile f st =
     (case validateAndSetFile f st of
        (st', None) \<Rightarrow> st'
      | (st', Some g) \<Rightarrow> reader_onload (Some (file_text g)) st')"

definition handleDragOver :: "state \<Rightarrow> state" where
  "handleDragOver st = st\<lparr>isDragging := True\<rparr>"

definition handleDragLeave :: "state \<Rightarrow> state" where
  "handleDragLeave st = st\<lparr>isDragging := False\<rparr>"

definition handleDrop :: "File list \<Rightarrow> state \<Rightarrow> state \<times> File option" where
  "handleDrop files st =
     (let st1 = st\<lparr>isDragging := False\<rparr>
      in case files of [] \<Rightarrow> (st1, None) | droppedFile # _ \<Rightarrow> validateAndSetFile droppedFile st1)"

definition handleFileChange :: "File list \<Rightarrow> state \<Rightarrow> state \<times> File option" where
  "handleFileChange files st =
     (case files of [] \<Rightarrow> (st, None) | f # _ \<Rightarrow> validateAndSetFile f st)"

definition handleRemoveFile :: "state \<Rightarrow> state" where
  "handleRemoveFile st =
     (let st1 = st\<lparr>fileSel := None, csvPreview := [], result := None\<rparr>
      in case fileInputValue st1 of
           None \<Rightarrow> st1
         | Some _ \<Rightarrow> st1\<lparr>fileInputValue := Some []\<rparr>)"

subsection \<open>Uploading\<close>

text \<open>
  The progress event axios passes to \<^verbatim>\<open>onUploadProgress\<close>: the bytes sent so far and, when
  the length is computable, the bytes to send. Both are unsigned integers of the browser.
\<close>

record ProgressEvent =
  loaded :: nat
  total :: "nat option"

text \<open>
  What \<^verbatim>\<open>handleUpload\<close> reads of a failed request: \<^verbatim>\<open>error.response\<close> (absent when no
  response arrived), its \<^verbatim>\<open>status\<close> and its \<^verbatim>\<open>data\<close> (\<open>None\<close> for a null or undefined
  body), and of the body the properties \<^verbatim>\<open>error\<close> and \<^verbatim>\<open>nextReset\<close>, strings when
  present.
\<close>

record ErrorData =
  error :: "string option"
  nextReset :: "string option"

record ErrorResponse =
  status :: nat
  data :: "ErrorData option"

datatype exn = TypeError

datatype completion = Normal | Throw exn

text \<open>
  \<^verbatim>\<open>handleUpload\<close> is an async function: it runs up to the \<^verbatim>\<open>await\<close>, the progress
  callback runs once per progress event, and the rest runs when the request settles. The
  part before the \<^verbatim>\<open>await\<close> returns the new state and the file it posted, if any.
\<close>

definition handleUpload_start :: "state \<Rightarrow> state \<times> File option" where
  "handleUpload_start st =
     (case fileSel st of
        None \<Rightarrow> (toast_error ''Please select a file to upload'' st, None)
      | Some f \<Rightarrow>
          (st\<lparr>isUploading := True, uploadProgress := 0,
              requests := requests st @ [PostUpload f]\<rparr>, Some f))"

definition onUploadProgress :: "ProgressEvent \<Rightarrow> state \<Rightarrow> state" where
  "onUploadProgress progressEvent st =
     (case total progressEvent of
        None \<Rightarrow> st
      | Some t \<Rightarrow>
          if number_of_nat t = 0 then st
          else
            (let progress =
                   Math_round
                     (js_div (js_mul (number_of_nat (loaded progressEvent)) 100)
                        (number_of_nat t))
             in st\<lparr>uploadProgress := of_int progress\<rparr>))"

text \<open>The request succeeded: the rest of the \<^verbatim>\<open>try\<close> block, then \<^verbatim>\<open>finally\<close>.\<close>

definition handleUpload_then :: "SubmissionResult \<Rightarrow> state \<Rightarrow> state" where
  "handleUpload_then response_data st =
     (let st1 = st\<lparr>result := Some response_data\<rparr>;
          st2 = st1\<lparr>remaining := Some (submissionsRemaining response_data)\<rparr>;
          st3 = toast_success ''File uploaded successfully!'' st2
      in st3\<lparr>isUploading := False\<rparr>)"

text \<open>
  The request failed: the \<^verbatim>\<open>catch\<close> block, then \<^verbatim>\<open>finally\<close>. The first argument stands
  for \<^verbatim>\<open>new Date(s).toLocaleTimeString()\<close>, which depends on the locale and the time
  zone of the browser. Reading \<^verbatim>\<open>serverError.nextReset\<close> of a null or undefined
  \<^verbatim>\<open>serverError\<close> throws a \<^verbatim>\<open>TypeError\<close> out of the \<^verbatim>\<open>catch\<close> block; \<^verbatim>\<open>finally\<close> still
  runs. A string is truthy when it is not empty.
\<close>

definition fallback_message :: string where
  "fallback_message = ''Upload failed. Please check file format and try again.''"

definition handleUpload_catch ::
  "(string \<Rightarrow> string) \<Rightarrow> ErrorResponse option \<Rightarrow> state \<Rightarrow> completion \<times> state" where
  "handleUpload_catch toLocaleTimeString response st =
     (let serverError = (case response of None \<Rightarrow> None | Some r \<Rightarrow> data r)
      in if map_option status response = Some 429
         then
           (case serverError of
              None \<Rightarrow> (Throw TypeError, st\<lparr>isUploading := False\<rparr>)
            | Some d \<Rightarrow>
                (let nextResetText =
                       (case nextReset d of
                          None \<Rightarrow> ''tomorrow''
                        | Some s \<Rightarrow> if s \<noteq> [] then toLocaleTimeString s else ''tomorrow'')
                 in (Normal,
                     (toast_error
                        (''Daily upload limit exceeded. Limit resets at '' @ nextResetText) st)
                     \<lparr>isUploading := False\<rparr>)))
         else
           (let errorMessage =
                  (case serverError of
                     None \<Rightarrow> fallback_message
                   | Some d \<Rightarrow>
                       (case error d of
                          None \<Rightarrow> fallback_message
                        | Some s \<Rightarrow> if s \<noteq> [] then s else fallback_message))
            in (Normal, (toast_error errorMessage st)\<lparr>isUploading := False\<rparr>)))"

datatype outcome = Resolved SubmissionResult | Rejected "ErrorResponse option"

text \<open>
  One whole run of \<^verbatim>\<open>handleUpload\<close>: the progress events and the way the request settles
  are what the network does during the \<^verbatim>\<open>await\<close>. A request that resolves carries a body
  that is an object of the shape \<^verbatim>\<open>SubmissionResult\<close>.
\<close>

definition handleUpload ::
  "(string \<Rightarrow> string) \<Rightarrow> ProgressEvent list \<Rightarrow> outcome \<Rightarrow> state \<Rightarrow> completion \<times> state" where
  "handleUpload toLocaleTimeString events settled st =
     (case handleUpload_start st of
        (st1, None) \<Rightarrow> (Normal, st1)
      | (st1, Some f) \<Rightarrow>
          (let st2 = fold onUploadProgress events st1
           in case settled of
                Resolved response_data \<Rightarrow> (Normal, handleUpload_then response_data st2)
              | Rejected response \<Rightarrow> handleUpload_catch toLocaleTimeString response st2))"

text \<open>The effect that fetches the remaining quota when the page mounts.\<close>

definition fetchRequirements_start :: "state \<Rightarrow> state" where
  "fetchRequirements_start st = st\<lparr>requests := requests st @ [GetSubmissionsRemaining]\<rparr>"

definition fetchRequirements_then :: "number \<Rightarrow> state \<Rightarrow> state" where
  "fetchRequirements_then n st = st\<lparr>remaining := Some n\<rparr>"

subsection \<open>What the result card shows\<close>

text \<open>
  The texts of the two elements the card renders from \<^verbatim>\<open>result\<close>: the item accuracy,
  \<^verbatim>\<open>(result.item_accuracy * 100).toFixed(2)\<close> followed by a percent sign, and the remaining
  submissions.
\<close>

definition itemAccuracyText :: "SubmissionResult \<Rightarrow> string option" where
  "itemAccuracyText r = map_option (\<lambda>s. s @ ''%'') (toFixed 2 (js_mul (item_accuracy r) 100))"

definition submissionsRemainingText :: "SubmissionResult \<Rightarrow> string option" where
  "submissionsRemainingText r = Number_toString (submissionsRemaining r)"

subsection \<open>The page as an event loop\<close>

text \<open>
  Everything that can happen to a mounted page, one handler or callback at a time. A run
  is any sequence of events from the initial state: callbacks may be interleaved with
  user actions in every order.
\<close>

datatype event =
    DragOver
  | DragLeave
  | Drop "File list"
  | FileChange "File list"
  | ReaderLoad "string option"
  | UploadClick
  | UploadProgress ProgressEvent
  | UploadResolved SubmissionResult
  | UploadRejected "ErrorResponse option"
  | RemoveFile
  | FetchRequirements
  | RequirementsResolved number
  | RequirementsRejected

fun handle :: "(string \<Rightarrow> string) \<Rightarrow> event \<Rightarrow> state \<Rightarrow> state" where
  "handle L DragOver st = handleDragOver st"
| "handle L DragLeave st = handleDragLeave st"
| "handle L (Drop files) st = fst (handleDrop files st)"
| "handle L (FileChange files) st = fst (handleFileChange files st)"
| "handle L (ReaderLoad res) st = reader_onload res st"
| "handle L UploadClick st = fst (handleUpload_start st)"
| "handle L (UploadProgress ev) st = onUploadProgress ev st"
| "handle L (UploadResolved r) st = handleUpload_then r st"
| "handle L (UploadRejected e) st = snd (handleUpload_catch L e st)"
| "handle L RemoveFile st = handleRemoveFile st"
| "handle L FetchRequirements st = fetchRequirements_start st"
| "handle L (RequirementsResolved n) st = fetchRequirements_then n st"
| "handle L RequirementsRejected st = st"

definition run :: "(string \<Rightarrow> string) \<Rightarrow> event list \<Rightarrow> state" where
  "run L evs = fold (handle L) evs initial"

section \<open>The leaderboard page: \<^verbatim>\<open>Leaderboard.tsx\<close>\<close>

text \<open>
  The state of the component (the entries are left abstract), the notifications and the
  number of \<^verbatim>\<open>GET /leaderboard\<close> requests it has issued, and the part of the browser the
  effect talks to: the intervals registered with \<^verbatim>\<open>setInterval\<close> and not yet cleared, each
  with its id and its period in milliseconds. \<open>intervalId\<close> is the variable of that name
  in the effect's closure, \<open>None\<close> while no effect is active.
\<close>

record 'e LeaderboardState =
  leaderboard :: "'e list"
  isLoading :: bool
  lastUpdated :: "nat option"
  isRefreshing :: bool
  notifications :: "toast list"
  fetches :: nat
  timers :: "(nat \<times> nat) list"
  nextTimer :: nat
  intervalId :: "nat option"

definition leaderboard_initial :: "'e LeaderboardState" where
  "leaderboard_initial =
     \<lparr>leaderboard = [], isLoading = True, lastUpdated = None, isRefreshing = False,
      notifications = [], fetches = 0, timers = [], nextTimer = 0, intervalId = None\<rparr>"

definition setInterval :: "nat \<Rightarrow> 'e LeaderboardState \<Rightarrow> nat \<times> 'e LeaderboardState" where
  "setInterval period st =
     (nextTimer st,
      st\<lparr>timers := timers st @ [(nextTimer st, period)], nextTimer := Suc (nextTimer st)\<rparr>)"

definition clearInterval :: "nat \<Rightarrow> 'e LeaderboardState \<Rightarrow> 'e LeaderboardState" where
  "clearInterval i st = st\<lparr>timers := filter (\<lambda>timer. fst timer \<noteq> i) (timers st)\<rparr>"

text \<open>\<^verbatim>\<open>fetchLeaderboard\<close> up to its \<^verbatim>\<open>await\<close>: the request goes out.\<close>

definition fetchLeaderboard_start :: "'e LeaderboardState \<Rightarrow> 'e LeaderboardState" where
  "fetchLeaderboard_start st = st\<lparr>isRefreshing := True, fetches := Suc (fetches st)\<rparr>"

text \<open>
  The response arrived: \<open>Some entries\<close> when the body holds an array under
  \<^verbatim>\<open>leaderboard\<close>, \<open>None\<close> for any other body; \<open>now\<close> is the clock read by \<^verbatim>\<open>new Date()\<close>.
\<close>

definition fetchLeaderboard_then ::
  "'e list option \<Rightarrow> nat \<Rightarrow> 'e LeaderboardState \<Rightarrow> 'e LeaderboardState" where
  "fetchLeaderboard_then body now st =
     (let st1 =
            (case body of
               Some entries \<Rightarrow> st\<lparr>leaderboard := entries\<rparr>
             | None \<Rightarrow>
                 st\<lparr>notifications := notifications st @
                       [ToastError ''Received unexpected data format from server''],
                    leaderboard := []\<rparr>);
          st2 = st1\<lparr>lastUpdated := Some now\<rparr>
      in st2\<lparr>isLoading := False, isRefreshing := False\<rparr>)"

text \<open>The request failed; the argument is \<^verbatim>\<open>error.response?.data?.error\<close>.\<close>

definition fetchLeaderboard_catch ::
  "string option \<Rightarrow> 'e LeaderboardState \<Rightarrow> 'e LeaderboardState" where
  "fetchLeaderboard_catch err st =
     (let message =
            (case err of
               None \<Rightarrow> ''Failed to load leaderboard''
             | Some s \<Rightarrow> if s \<noteq> [] then s else ''Failed to load leaderboard'');
          st1 = st\<lparr>notifications := notifications st @ [ToastError message], leaderboard := []\<rparr>
      in st1\<lparr>isLoading := False, isRefreshing := False\<rparr>)"

text \<open>
  The effect: it fetches, registers the two-minute interval and keeps its id; its
  cleanup clears that interval.
\<close>

definition effect_mount :: "'e LeaderboardState \<Rightarrow> 'e LeaderboardState" where
  "effect_mount st =
     (let st1 = fetchLeaderboard_start st;
          (i, st2) = setInterval (2 * 60 * 1000) st1
      in st2\<lparr>intervalId := Some i\<rparr>)"

definition effect_cleanup :: "'e LeaderboardState \<Rightarrow> 'e LeaderboardState" where
  "effect_cleanup st =
     (case intervalId st of
        None \<Rightarrow> st
      | Some i \<Rightarrow> (clearInterval i st)\<lparr>intervalId := None\<rparr>)"

text \<open>
  The browser runs the callback of an interval only while the interval is registered;
  the callback is \<^verbatim>\<open>fetchLeaderboard\<close>.
\<close>

definition timer_fires :: "nat \<Rightarrow> 'e LeaderboardState \<Rightarrow> 'e LeaderboardState" where
  "timer_fires i st = (if i \<in> fst ` set (timers st) then fetchLeaderboard_start st else st)"

definition handleRefresh :: "'e LeaderboardState \<Rightarrow> 'e LeaderboardState" where
  "handleRefresh st = fetchLeaderboard_start st"

text \<open>
  The life of the component as events. React runs the effect when the component mounts
  and its cleanup when it unmounts, in alternation; the refresh button exists only while
  the component is mounted. A timer may fire and a response may arrive at any time.
\<close>

datatype 'e leaderboard_event =
    Mount
  | Unmount
  | TimerFires nat
  | Refresh
  | FetchResolved "'e list option" nat
  | FetchRejected "string option"

fun leaderboard_handle :: "'e leaderboard_event \<Rightarrow> 'e LeaderboardState \<Rightarrow> 'e LeaderboardState" where
  "leaderboard_handle Mount st = (if intervalId st = None then effect_mount st else st)"
| "leaderboard_handle Unmount st = effect_cleanup st"
| "leaderboard_handle (TimerFires i) st = timer_fires i st"
| "leaderboard_handle Refresh st = (if intervalId st = None then st else handleRefresh st)"
| "leaderboard_handle (FetchResolved body now) st = fetchLeaderboard_then body now st"
| "leaderboard_handle (FetchRejected err) st = fetchLeaderboard_catch err st"

definition leaderboard_run :: "'e leaderboard_event list \<Rightarrow> 'e LeaderboardState" where
  "leaderboard_run evs = fold leaderboard_handle evs leaderboard_initial"

text \<open>In every state of a run the registered intervals are exactly the effect's own.\<close>

definition timers_ok :: "'e LeaderboardState \<Rightarrow> bool" where
  "timers_ok st \<longleftrightarrow>
     timers st = (case intervalId st of None \<Rightarrow> [] | Some i \<Rightarrow> [(i, 120000)])"

text \<open>An unmounted component holds no interval id and has no interval registered.\<close>

definition unmounted :: "'e LeaderboardState \<Rightarrow> bool" where
  "unmounted st \<longleftrightarrow> intervalId st = None \<and> timers st = []"

section \<open>Notions used in the statements\<close>

subsection \<open>The body of a failed response\<close>

text \<open>The \<^verbatim>\<open>error\<close> property of the response body, when a response with a body arrived.\<close>

definition server_error :: "ErrorResponse option \<Rightarrow> string option" where
  "server_error response =
     (case response of
        None \<Rightarrow> None
      | Some r \<Rightarrow> (case data r of None \<Rightarrow> None | Some d \<Rightarrow> error d))"

subsection \<open>Which files may reach the server\<close>

text \<open>
  A file is acceptable when its name ends in \<^verbatim>\<open>.csv\<close> or its MIME type is
  \<^verbatim>\<open>text/csv\<close>, and its size is at most 5 MiB.
\<close>

definition acceptable :: "File \<Rightarrow> bool" where
  "acceptable f \<longleftrightarrow>
     (endsWith (file_name f) ''.csv'' \<or> file_type f = ''text/csv'') \<and>
     file_size f \<le> 5 * 1024 * 1024"

fun uploads :: "request list \<Rightarrow> File list" where
  "uploads [] = []"
| "uploads (GetSubmissionsRemaining # rs) = uploads rs"
| "uploads (PostUpload f # rs) = f # uploads rs"

definition selection_ok :: "state \<Rightarrow> bool" where
  "selection_ok st \<longleftrightarrow>
     (case fileSel st of None \<Rightarrow> True | Some f \<Rightarrow> acceptable f) \<and>
     list_all acceptable (uploads (requests st))"

subsection \<open>Progress\<close>

text \<open>
  A progress event is bounded when it reports no total, or no more bytes sent than the
  total. The displayed progress is in order when it is an integer from 0 to 100.
\<close>

definition bounded_event :: "ProgressEvent \<Rightarrow> bool" where
  "bounded_event ev = (case total ev of None \<Rightarrow> True | Some t \<Rightarrow> loaded ev \<le> t)"

definition progress_ok :: "state \<Rightarrow> bool" where
  "progress_ok st \<longleftrightarrow>
     of_int \<lfloor>uploadProgress st\<rfloor> = uploadProgress st \<and>
     0 \<le> uploadProgress st \<and> uploadProgress st \<le> 100"

section \<open>Properties of file selection\<close>

lemma startsWith_prefix: "startsWith s t \<longleftrightarrow> prefix t s"
  by (induction s t rule: startsWith.induct) auto

lemma endsWith_suffix: "endsWith s t \<longleftrightarrow> suffix t s"
  by (simp add: endsWith_def startsWith_prefix suffix_to_prefix)

lemma includesStr_sublist: "includesStr s t \<longleftrightarrow> sublist t s"
proof (induction s)
  case Nil
  then show ?case by simp
next
  case (Cons x xs)
  then show ?case
    by (simp add: startsWith_prefix sublist_Cons_right disj_commute)
qed

lemma split_not_Nil: "split sep s \<noteq> []"
  by (induction s) (auto split: list.splits)

lemma uploads_append: "uploads (rs @ rs') = uploads rs @ uploads rs'"
  by (induction rs rule: uploads.induct) simp_all

lemma validateAndSetFile_ok:
  "selection_ok st \<Longrightarrow> selection_ok (fst (validateAndSetFile f st))"
  by (simp add: validateAndSetFile_def selection_ok_def toast_error_def acceptable_def)

lemma reader_onload_frame:
  "fileSel (reader_onload res st) = fileSel st"
  "requests (reader_onload res st) = requests st"
  "result (reader_onload res st) = result st"
  by (simp_all add: reader_onload_def Let_def toast_error_def split: list.splits)

lemma handleUpload_catch_frame:
  "fileSel (snd (handleUpload_catch L e st)) = fileSel st"
  "requests (snd (handleUpload_catch L e st)) = requests st"
  "csvPreview (snd (handleUpload_catch L e st)) = csvPreview st"
  "uploadProgress (snd (handleUpload_catch L e st)) = uploadProgress st"
  by (simp_all add: handleUpload_catch_def Let_def toast_error_def split: option.splits)

lemma onUploadProgress_frame:
  "fileSel (onUploadProgress ev st) = fileSel st"
  "requests (onUploadProgress ev st) = requests st"
  "csvPreview (onUploadProgress ev st) = csvPreview st"
  by (simp_all add: onUploadProgress_def Let_def split: option.splits)

lemma handle_ok: "selection_ok st \<Longrightarrow> selection_ok (handle L ev st)"
proof (cases ev)
  case (Drop files)
  assume ok: "selection_ok st"
  then have "selection_ok (st\<lparr>isDragging := False\<rparr>)"
    by (simp add: selection_ok_def)
  then show ?thesis
    using Drop ok by (cases files) (simp_all add: handleDrop_def validateAndSetFile_ok)
next
  case (FileChange files)
  assume "selection_ok st"
  then show ?thesis
    using FileChange by (cases files) (simp_all add: handleFileChange_def validateAndSetFile_ok)
next
  case UploadClick
  assume "selection_ok st"
  then show ?thesis
    using UploadClick
    by (auto simp: handleUpload_start_def selection_ok_def toast_error_def uploads_append
        split: option.splits)
qed (simp_all add: selection_ok_def handleDragOver_def handleDragLeave_def reader_onload_frame
    onUploadProgress_frame handleUpload_then_def toast_success_def Let_def
    handleUpload_catch_frame handleRemoveFile_def fetchRequirements_start_def
    fetchRequirements_then_def uploads_append split: option.splits)

lemma fold_handle_ok: "selection_ok st \<Longrightarrow> selection_ok (fold (handle L) evs st)"
  by (induction evs arbitrary: st) (simp_all add: handle_ok)

lemma run_ok: "selection_ok (run L evs)"
  unfolding run_def by (rule fold_handle_ok) (simp add: selection_ok_def initial_def)

lemma uploads_mem: "PostUpload f \<in> set rs \<longleftrightarrow> f \<in> set (uploads rs)"
  by (induction rs rule: uploads.induct) auto

lemma run_selection_acceptable: "fileSel (run L evs) = Some f \<Longrightarrow> acceptable f"
  using run_ok [of L evs] by (simp add: selection_ok_def)

lemma run_upload_acceptable: "PostUpload f \<in> set (requests (run L evs)) \<Longrightarrow> acceptable f"
  using run_ok [of L evs] by (simp add: selection_ok_def uploads_mem list_all_iff)

text \<open>
  C3. A file whose name does not end in \<^verbatim>\<open>.csv\<close> and whose MIME type is not
  \<^verbatim>\<open>text/csv\<close> is rejected by \<^verbatim>\<open>validateAndSetFile\<close>: the only effect is the notification
  "Only CSV files are allowed", no read is started, and in no run of the page is the
  file ever the pending selection or the payload of an upload request.
\<close>

theorem non_csv_rejected:
  assumes "\<not> endsWith (file_name f) ''.csv''" and "file_type f \<noteq> ''text/csv''"
  shows "validateAndSetFile f st = (toast_error ''Only CSV files are allowed'' st, None) \<and>
         fileSel (fst (validateAndSetFile f st)) = fileSel st \<and>
         requests (fst (validateAndSetFile f st)) = requests st \<and>
         fileSel (run L evs) \<noteq> Some f \<and>
         PostUpload f \<notin> set (requests (run L evs))"
proof -
  have "\<not> acceptable f"
    using assms by (simp add: acceptable_def)
  then have "fileSel (run L evs) \<noteq> Some f" and "PostUpload f \<notin> set (requests (run L evs))"
    using run_selection_acceptable run_upload_acceptable by blast+
  then show ?thesis
    using assms by (simp add: validateAndSetFile_def toast_error_def)
qed

theorem non_csv_rejected_witness:
  "validateAndSetFile
     \<lparr>file_name = ''notes.txt'', file_type = ''text/plain'', file_size = 12,
      file_text = ''hello world!''\<rparr> initial =
     (toast_error ''Only CSV files are allowed'' initial, None) \<and>
   PostUpload
     \<lparr>file_name = ''notes.txt'', file_type = ''text/plain'', file_size = 12,
      file_text = ''hello world!''\<rparr>
   \<notin> set (requests (run (\<lambda>s. s)
       [Drop [\<lparr>file_name = ''notes.txt'', file_type = ''text/plain'', file_size = 12,
              file_text = ''hello world!''\<rparr>], UploadClick]))"
  using non_csv_rejected
    [of "\<lparr>file_name = ''notes.txt'', file_type = ''text/plain'', file_size = 12,
          file_text = ''hello world!''\<rparr>" initial "\<lambda>s. s"
        "[Drop [\<lparr>file_name = ''notes.txt'', file_type = ''text/plain'', file_size = 12,
              file_text = ''hello world!''\<rparr>], UploadClick]"]
  by (simp add: endsWith_def)

text \<open>
  C4. A file larger than 5 MiB is rejected by \<^verbatim>\<open>validateAndSetFile\<close> whatever its content
  is: no read is started and in no run of the page is the file the pending selection or
  the payload of an upload. The notification is the size-limit error when the file
  passes the CSV check, which comes first in the source; otherwise it is "Only CSV files
  are allowed".
\<close>

theorem oversize_rejected:
  assumes "file_size f > 5 * 1024 * 1024"
  shows "validateAndSetFile f st =
           (toast_error
              (if \<not> endsWith (file_name f) ''.csv'' \<and> file_type f \<noteq> ''text/csv''
               then ''Only CSV files are allowed'' else ''File size exceeds 5MB limit'') st,
            None) \<and>
         fileSel (run L evs) \<noteq> Some f \<and>
         PostUpload f \<notin> set (requests (run L evs))"
proof -
  have "\<not> acceptable f"
    using assms by (simp add: acceptable_def)
  then have "fileSel (run L evs) \<noteq> Some f" and "PostUpload f \<notin> set (requests (run L evs))"
    using run_selection_acceptable run_upload_acceptable by blast+
  then show ?thesis
    using assms by (simp add: validateAndSetFile_def)
qed

theorem oversize_rejected_witness:
  "validateAndSetFile
     \<lparr>file_name = ''big.csv'', file_type = ''text/csv'', file_size = 5242881,
      file_text = ''walmart_id''\<rparr> initial =
     (toast_error ''File size exceeds 5MB limit'' initial, None) \<and>
   fileSel (run (\<lambda>s. s)
     [FileChange [\<lparr>file_name = ''big.csv'', file_type = ''text/csv'', file_size = 5242881,
                   file_text = ''walmart_id''\<rparr>]]) \<noteq>
     Some \<lparr>file_name = ''big.csv'', file_type = ''text/csv'', file_size = 5242881,
           file_text = ''walmart_id''\<rparr>"
  using oversize_rejected
    [of "\<lparr>file_name = ''big.csv'', file_type = ''text/csv'', file_size = 5242881,
          file_text = ''walmart_id''\<rparr>" initial "\<lambda>s. s"
        "[FileChange [\<lparr>file_name = ''big.csv'', file_type = ''text/csv'', file_size = 5242881,
                      file_text = ''walmart_id''\<rparr>]]"]
  by (simp add: endsWith_def)

text \<open>
  The claim as stated, with the size-limit error for every oversized file, fails for a
  6 MiB file that is not a CSV: the CSV check comes first and raises its own error.
\<close>

theorem oversize_rejected_counterexample:
  "file_size \<lparr>file_name = ''dump.bin'', file_type = ''application/octet-stream'',
              file_size = 6291456, file_text = []\<rparr> > 5 * 1024 * 1024 \<and>
   toasts (fst (validateAndSetFile
     \<lparr>file_name = ''dump.bin'', file_type = ''application/octet-stream'',
      file_size = 6291456, file_text = []\<rparr> initial)) =
     [ToastError ''Only CSV files are allowed''] \<and>
   ToastError ''File size exceeds 5MB limit'' \<notin> set (toasts (fst (validateAndSetFile
     \<lparr>file_name = ''dump.bin'', file_type = ''application/octet-stream'',
      file_size = 6291456, file_text = []\<rparr> initial)))"
  by (simp add: validateAndSetFile_def endsWith_def toast_error_def initial_def)

text \<open>
  C1. When a file passes the name, type and size checks and the first line of its text
  lacks \<^verbatim>\<open>walmart_id\<close>, the selection raises the error "CSV must contain a column named
  "walmart_id"" and nothing else; the file stays the pending selection, the preview
  holds the first five lines, and a click on upload posts the file.
\<close>

theorem missing_walmart_id_keeps_file:
  assumes "acceptable f"
    and "split (CHR 0x0A) (file_text f) = header # rest"
    and "\<not> includesStr (toLowerCase header) ''walmart_id''"
  shows "selectFile f st =
           st\<lparr>fileSel := Some f, result := None, csvPreview := take 5 (header # rest),
              toasts := toasts st @ [ToastError walmart_id_message]\<rparr> \<and>
         fileSel (selectFile f st) = Some f \<and>
         snd (handleUpload_start (selectFile f st)) = Some f"
proof -
  have sync: "validateAndSetFile f st = (st\<lparr>fileSel := Some f, result := None\<rparr>, Some f)"
    using assms(1) by (auto simp: validateAndSetFile_def acceptable_def)
  have sel: "selectFile f st =
      st\<lparr>fileSel := Some f, result := None, csvPreview := take 5 (header # rest),
         toasts := toasts st @ [ToastError walmart_id_message]\<rparr>"
    using assms(2,3) by (simp add: selectFile_def sync reader_onload_def toast_error_def)
  show ?thesis
    unfolding sel by (simp add: handleUpload_start_def)
qed

theorem missing_walmart_id_keeps_file_witness:
  "selectFile
     \<lparr>file_name = ''preds.csv'', file_type = ''text/csv'', file_size = 16,
      file_text = ''id,brand\<newline>1,acme''\<rparr> initial =
     initial\<lparr>fileSel := Some \<lparr>file_name = ''preds.csv'', file_type = ''text/csv'',
                file_size = 16, file_text = ''id,brand\<newline>1,acme''\<rparr>,
             result := None, csvPreview := [''id,brand'', ''1,acme''],
             toasts := [ToastError walmart_id_message]\<rparr>"
  using missing_walmart_id_keeps_file
    [of "\<lparr>file_name = ''preds.csv'', file_type = ''text/csv'', file_size = 16,
          file_text = ''id,brand\<newline>1,acme''\<rparr>" "''id,brand''" "[''1,acme'']" initial]
  by (simp add: acceptable_def endsWith_def toLowerCase_def toLowerChar_def initial_def)

text \<open>
  The claim as stated, that the file is not retained, fails for a small CSV whose header
  is \<^verbatim>\<open>id,brand\<close>: after the selection the file is the pending selection.
\<close>

theorem missing_walmart_id_counterexample:
  "acceptable \<lparr>file_name = ''preds.csv'', file_type = ''text/csv'', file_size = 16,
               file_text = ''id,brand\<newline>1,acme''\<rparr> \<and>
   split (CHR 0x0A) ''id,brand\<newline>1,acme'' = [''id,brand'', ''1,acme''] \<and>
   \<not> includesStr (toLowerCase ''id,brand'') ''walmart_id'' \<and>
   fileSel (selectFile
     \<lparr>file_name = ''preds.csv'', file_type = ''text/csv'', file_size = 16,
      file_text = ''id,brand\<newline>1,acme''\<rparr> initial) =
     Some \<lparr>file_name = ''preds.csv'', file_type = ''text/csv'', file_size = 16,
           file_text = ''id,brand\<newline>1,acme''\<rparr>"
  by (simp add: acceptable_def endsWith_def toLowerCase_def toLowerChar_def initial_def
      selectFile_def validateAndSetFile_def reader_onload_def toast_error_def)

lemma fold_onUploadProgress_frame:
  "fileSel (fold onUploadProgress evs st) = fileSel st"
  "requests (fold onUploadProgress evs st) = requests st"
  "csvPreview (fold onUploadProgress evs st) = csvPreview st"
  by (induction evs arbitrary: st) (simp_all add: onUploadProgress_frame)

lemma handleUpload_frame:
  "fileSel (snd (handleUpload L evs out st)) = fileSel st"
  "csvPreview (snd (handleUpload L evs out st)) = csvPreview st"
  by (simp_all add: handleUpload_def handleUpload_start_def toast_error_def Let_def
      handleUpload_then_def toast_success_def handleUpload_catch_frame
      fold_onUploadProgress_frame split: option.splits outcome.splits)

text \<open>
  C2. The selection is discarded by \<^verbatim>\<open>handleRemoveFile\<close> only: it sets the file to null and
  empties the preview (and clears the result). A run of \<^verbatim>\<open>handleUpload\<close>, whether the
  request succeeds or fails and whatever progress events arrive, leaves the file and the
  preview as they were.
\<close>

theorem selection_discarded_on_removal_only:
  "fileSel (handleRemoveFile st) = None \<and>
   csvPreview (handleRemoveFile st) = [] \<and>
   result (handleRemoveFile st) = None \<and>
   fileSel (snd (handleUpload L evs out st)) = fileSel st \<and>
   csvPreview (snd (handleUpload L evs out st)) = csvPreview st"
  by (simp add: handleUpload_frame) (simp add: handleRemoveFile_def Let_def split: option.splits)

text \<open>
  The claim as stated, that a successful and a failed upload discard the selection, fails
  on a page holding \<^verbatim>\<open>preds.csv\<close>: after an upload that succeeds, and after one that fails
  with status 500, the file is still selected and the preview still shown.
\<close>

theorem selection_discarded_counterexample:
  "fileSel (snd (handleUpload (\<lambda>s. s) []
     (Resolved \<lparr>item_accuracy = 1, brand_accuracy = None, l0_accuracy = None,
                l1_accuracy = None, l2_accuracy = None, l3_accuracy = None,
                l4_accuracy = None, timestamp = ''2024-01-01T00:00:00Z'',
                submissionsRemaining = 3\<rparr>)
     (initial\<lparr>fileSel := Some \<lparr>file_name = ''preds.csv'', file_type = ''text/csv'',
                 file_size = 10, file_text = ''walmart_id''\<rparr>,
              csvPreview := [''walmart_id'']\<rparr>))) =
     Some \<lparr>file_name = ''preds.csv'', file_type = ''text/csv'', file_size = 10,
           file_text = ''walmart_id''\<rparr> \<and>
   csvPreview (snd (handleUpload (\<lambda>s. s) []
     (Rejected (Some \<lparr>status = 500, data = None\<rparr>))
     (initial\<lparr>fileSel := Some \<lparr>file_name = ''preds.csv'', file_type = ''text/csv'',
                 file_size = 10, file_text = ''walmart_id''\<rparr>,
              csvPreview := [''walmart_id'']\<rparr>))) = [''walmart_id'']"
  by (simp add: handleUpload_def handleUpload_start_def handleUpload_then_def
      handleUpload_catch_def toast_success_def toast_error_def initial_def)

text \<open>
  C5. When the header passes the \<^verbatim>\<open>walmart_id\<close> check and lacks at least one of the six
  required columns, \<^verbatim>\<open>reader.onload\<close> raises one notification: "CSV is missing required
  columns: " followed by the missing names joined with ", ". The names listed are
  exactly the required columns the lower-cased header does not contain, in the order of
  \<open>requiredColumns\<close>.
\<close>

theorem missing_columns_listed:
  assumes "split (CHR 0x0A) text = header # rest"
    and "includesStr (toLowerCase header) ''walmart_id''"
    and "c \<in> set requiredColumns" and "\<not> includesStr (toLowerCase header) c"
  shows "\<exists>missing.
           toasts (reader_onload (Some text) st) =
             toasts st @ [ToastError (''CSV is missing required columns: '' @ join '', '' missing)] \<and>
           subseq missing requiredColumns \<and>
           set missing = {col. col \<in> set requiredColumns \<and> \<not> includesStr (toLowerCase header) col} \<and>
           missing = filter (\<lambda>col. \<not> includesStr (toLowerCase header) col) requiredColumns"
proof -
  let ?missing = "filter (\<lambda>col. \<not> includesStr (toLowerCase header) col) requiredColumns"
  have "c \<in> set ?missing"
    using assms(3,4) by simp
  then have "?missing \<noteq> []"
    by (metis empty_iff list.set(1))
  then have "toasts (reader_onload (Some text) st) =
      toasts st @ [ToastError (''CSV is missing required columns: '' @ join '', '' ?missing)]"
    using assms(1,2) by (simp add: reader_onload_def toast_error_def)
  moreover have "subseq ?missing requiredColumns"
    by simp
  moreover have "set ?missing =
      {col. col \<in> set requiredColumns \<and> \<not> includesStr (toLowerCase header) col}"
    by auto
  ultimately show ?thesis
    by blast
qed

theorem missing_columns_listed_witness:
  "toasts (reader_onload
     (Some ''Walmart_ID,details_Brand,L0_category,L2_category\<newline>7,acme,food,tea'') initial) =
   [ToastError ''CSV is missing required columns: l1_category, l3_category, l4_category'']"
  using missing_columns_listed
    [of "''Walmart_ID,details_Brand,L0_category,L2_category\<newline>7,acme,food,tea''"
        "''Walmart_ID,details_Brand,L0_category,L2_category''" "[''7,acme,food,tea'']"
        "''l1_category''" initial]
  by (simp add: requiredColumns_def toLowerCase_def toLowerChar_def initial_def)

section \<open>Properties of the upload\<close>

lemma rate_limit_with_reset:
  assumes "status r = 429" and "data r = Some d" and "nextReset d = Some s" and "s \<noteq> []"
  shows "handleUpload_catch L (Some r) st =
           (Normal,
            st\<lparr>toasts := toasts st @
                  [ToastError (''Daily upload limit exceeded. Limit resets at '' @ L s)],
               isUploading := False\<rparr>)"
  using assms by (simp add: handleUpload_catch_def toast_error_def)

lemma rate_limit_without_reset:
  assumes "status r = 429" and "data r = Some d" and "nextReset d = None"
  shows "handleUpload_catch L (Some r) st =
           (Normal,
            st\<lparr>toasts := toasts st @
                  [ToastError ''Daily upload limit exceeded. Limit resets at tomorrow''],
               isUploading := False\<rparr>)"
  using assms by (simp add: handleUpload_catch_def toast_error_def)

text \<open>
  C7. A 429 response whose body is null or undefined has no \<^verbatim>\<open>nextReset\<close>, yet the handler
  raises no notification at all: reading \<^verbatim>\<open>serverError.nextReset\<close> throws a
  \<^verbatim>\<open>TypeError\<close> inside the \<^verbatim>\<open>catch\<close> block, and only \<^verbatim>\<open>finally\<close> runs. The branch for the
  other statuses reads \<^verbatim>\<open>serverError?.error\<close> and does not throw on the same body.
\<close>

theorem rate_limit_null_body_throws:
  "handleUpload_catch L (Some \<lparr>status = 429, data = None\<rparr>) st =
     (Throw TypeError, st\<lparr>isUploading := False\<rparr>) \<and>
   toasts (snd (handleUpload_catch L (Some \<lparr>status = 429, data = None\<rparr>) st)) = toasts st \<and>
   handleUpload_catch L (Some \<lparr>status = 500, data = None\<rparr>) st =
     (Normal, st\<lparr>toasts := toasts st @ [ToastError fallback_message], isUploading := False\<rparr>)"
  by (simp add: handleUpload_catch_def toast_error_def)

text \<open>
  C8. When the request fails with no response or with a status other than 429, the handler
  completes normally with exactly one new notification and no new request: the
  notification is the body's \<^verbatim>\<open>error\<close> property when the body has one and it is not
  empty, and the fallback message otherwise. A whole run of \<^verbatim>\<open>handleUpload\<close> that fails
  this way has posted the file once.
\<close>

theorem other_failure_message:
  assumes "map_option status response \<noteq> Some 429"
  shows "handleUpload_catch L response st =
           (Normal,
            st\<lparr>toasts := toasts st @
                  [ToastError (case server_error response of
                                 None \<Rightarrow> fallback_message
                               | Some s \<Rightarrow> if s \<noteq> [] then s else fallback_message)],
               isUploading := False\<rparr>) \<and>
         requests (snd (handleUpload_catch L response st)) = requests st \<and>
         requests (snd (handleUpload L evs (Rejected response) (st\<lparr>fileSel := Some f\<rparr>))) =
           requests st @ [PostUpload f]"
proof -
  have c: "handleUpload_catch L response st' =
      (Normal,
       st'\<lparr>toasts := toasts st' @
             [ToastError (case server_error response of
                            None \<Rightarrow> fallback_message
                          | Some s \<Rightarrow> if s \<noteq> [] then s else fallback_message)],
           isUploading := False\<rparr>)" for st'
    using assms
    by (simp add: handleUpload_catch_def server_error_def toast_error_def split: option.splits)
  have "requests (snd (handleUpload L evs (Rejected response) (st\<lparr>fileSel := Some f\<rparr>))) =
      requests st @ [PostUpload f]"
    by (simp add: handleUpload_def handleUpload_start_def handleUpload_catch_frame
        fold_onUploadProgress_frame)
  then show ?thesis
    by (simp add: c)
qed

theorem other_failure_message_witness:
  "handleUpload_catch (\<lambda>s. s)
     (Some \<lparr>status = 400, data = Some \<lparr>error = Some ''Missing column walmart_id'',
                                        nextReset = None\<rparr>\<rparr>) initial =
     (Normal, initial\<lparr>toasts := [ToastError ''Missing column walmart_id''],
                      isUploading := False\<rparr>) \<and>
   handleUpload_catch (\<lambda>s. s) None initial =
     (Normal, initial\<lparr>toasts := [ToastError fallback_message], isUploading := False\<rparr>)"
  using other_failure_message
    [of "Some \<lparr>status = 400, data = Some \<lparr>error = Some ''Missing column walmart_id'',
                                            nextReset = None\<rparr>\<rparr>" "\<lambda>s. s" initial]
    other_failure_message [of None "\<lambda>s. s" initial]
  by (simp add: server_error_def initial_def)

text \<open>
  The claim as stated, that the message equals the \<^verbatim>\<open>error\<close> property whenever the body
  has one, fails for a status 500 body whose \<^verbatim>\<open>error\<close> is the empty string: the empty
  string is falsy, so the fallback message is shown.
\<close>

theorem other_failure_message_counterexample:
  "error \<lparr>error = Some [], nextReset = None\<rparr> = Some [] \<and>
   toasts (snd (handleUpload_catch (\<lambda>s. s)
     (Some \<lparr>status = 500, data = Some \<lparr>error = Some [], nextReset = None\<rparr>\<rparr>) initial)) =
     [ToastError ''Upload failed. Please check file format and try again.''] \<and>
   ToastError [] \<notin> set (toasts (snd (handleUpload_catch (\<lambda>s. s)
     (Some \<lparr>status = 500, data = Some \<lparr>error = Some [], nextReset = None\<rparr>\<rparr>) initial)))"
  by (simp add: handleUpload_catch_def toast_error_def fallback_message_def initial_def)

section \<open>Properties of the numbers\<close>

lemma pow2_powi: "pow2 e = 2 powi e"
  by (simp add: pow2_def power_int_def inverse_eq_divide power_one_over)

lemma pow2_pos: "0 < pow2 e"
  by (simp add: pow2_powi)

lemma pow2_diff: "pow2 (a - b) = pow2 a / pow2 b"
  by (simp add: pow2_powi power_int_diff)

lemma pow2_add: "pow2 (a + b) = pow2 a * pow2 b"
  by (simp add: pow2_powi power_int_add)

lemma pow2_nat: "0 \<le> e \<Longrightarrow> pow2 e = 2 ^ nat e"
  by (simp add: pow2_def)

lemma ilog2_lower:
  assumes "0 < x"
  shows "pow2 (ilog2 x) \<le> x"
proof (cases "1 \<le> x")
  case True
  then have pos: "0 < \<lfloor>x\<rfloor>" by simp
  from bitlen_bounds [OF pos] have "2 ^ nat (bitlen \<lfloor>x\<rfloor> - 1) \<le> \<lfloor>x\<rfloor>" by simp
  then have "(2::rat) ^ nat (bitlen \<lfloor>x\<rfloor> - 1) \<le> of_int \<lfloor>x\<rfloor>"
    by (metis of_int_le_iff of_int_numeral of_int_power)
  also have "\<dots> \<le> x" by simp
  finally have "(2::rat) ^ nat (bitlen \<lfloor>x\<rfloor> - 1) \<le> x" .
  moreover have "1 \<le> bitlen \<lfloor>x\<rfloor>"
    using pos by (simp add: bitlen_alt_def)
  ultimately show ?thesis
    using True by (simp add: ilog2_def pow2_def)
next
  case False
  let ?c = "\<lceil>1 / x\<rceil>"
  let ?k = "bitlen (?c - 1)"
  from False assms have "1 < 1 / x" by simp
  then have c2: "2 \<le> ?c" by linarith
  then have pos: "0 < ?c - 1" by simp
  from bitlen_bounds [OF pos] have "?c - 1 < 2 ^ nat ?k" by simp
  then have "?c \<le> 2 ^ nat ?k" by simp
  then have "(of_int ?c :: rat) \<le> 2 ^ nat ?k"
    by (metis of_int_le_iff of_int_numeral of_int_power)
  moreover have "1 / x \<le> of_int ?c" by simp
  ultimately have "1 / x \<le> 2 ^ nat ?k" by linarith
  then have "1 / 2 ^ nat ?k \<le> x"
    using assms by (simp add: field_simps)
  moreover have "1 \<le> ?k"
    using pos by (simp add: bitlen_alt_def)
  ultimately show ?thesis
    using False by (simp add: ilog2_def pow2_def)
qed

lemma ilog2_upper:
  assumes "0 < x"
  shows "x < pow2 (ilog2 x + 1)"
proof (cases "1 \<le> x")
  case True
  then have pos: "0 < \<lfloor>x\<rfloor>" by simp
  have k: "1 \<le> bitlen \<lfloor>x\<rfloor>"
    using pos by (simp add: bitlen_alt_def)
  from bitlen_bounds [OF pos] have "\<lfloor>x\<rfloor> < 2 ^ nat (bitlen \<lfloor>x\<rfloor>)" by simp
  then have "\<lfloor>x\<rfloor> + 1 \<le> 2 ^ nat (bitlen \<lfloor>x\<rfloor>)" by simp
  then have "(of_int (\<lfloor>x\<rfloor> + 1) :: rat) \<le> 2 ^ nat (bitlen \<lfloor>x\<rfloor>)"
    by (metis of_int_le_iff of_int_numeral of_int_power)
  moreover have "x < of_int (\<lfloor>x\<rfloor> + 1)" by linarith
  ultimately have "x < 2 ^ nat (bitlen \<lfloor>x\<rfloor>)" by linarith
  then show ?thesis
    using True k by (simp add: ilog2_def pow2_def)
next
  case False
  let ?c = "\<lceil>1 / x\<rceil>"
  let ?k = "bitlen (?c - 1)"
  from False assms have "1 < 1 / x" by simp
  then have c2: "2 \<le> ?c" by linarith
  then have pos: "0 < ?c - 1" by simp
  have k: "1 \<le> ?k"
    using pos by (simp add: bitlen_alt_def)
  from bitlen_bounds [OF pos] have "2 ^ nat (?k - 1) \<le> ?c - 1" by simp
  then have "(2::rat) ^ nat (?k - 1) \<le> of_int (?c - 1)"
    by (metis of_int_le_iff of_int_numeral of_int_power)
  moreover have "of_int (?c - 1) < 1 / x" by linarith
  ultimately have "2 ^ nat (?k - 1) < 1 / x" by linarith
  then have lt: "x < 1 / 2 ^ nat (?k - 1)"
    using assms by (simp add: field_simps)
  have "pow2 (ilog2 x + 1) = pow2 (- (?k - 1))"
    using False by (simp add: ilog2_def)
  also have "\<dots> = 1 / 2 ^ nat (?k - 1)"
    using k by (cases "?k = 1") (simp_all add: pow2_def)
  finally show ?thesis
    using lt by simp
qed

lemma rne_bounds: "y - 1 / 2 \<le> of_int (rne y)" "of_int (rne y) \<le> y + 1 / 2"
  unfolding rne_def Let_def by (simp_all; linarith)+

lemma rne_nonneg: "0 \<le> y \<Longrightarrow> 0 \<le> rne y"
  unfolding rne_def Let_def by (simp; linarith)

lemma fl_error_ulp:
  assumes "0 < x"
  shows "\<bar>fl x - x\<bar> \<le> pow2 (ilog2 x - 52) / 2"
proof -
  let ?u = "pow2 (ilog2 x - 52)"
  have u: "0 < ?u" by (rule pow2_pos)
  have fl: "fl x = of_int (rne (x / ?u)) * ?u"
    using assms by (simp add: fl_def Let_def)
  have "\<bar>of_int (rne (x / ?u)) - x / ?u\<bar> \<le> 1 / 2"
    using rne_bounds [of "x / ?u"] by linarith
  then have "\<bar>of_int (rne (x / ?u)) - x / ?u\<bar> * ?u \<le> 1 / 2 * ?u"
    using u by (simp add: mult_right_mono)
  moreover have "\<bar>of_int (rne (x / ?u)) - x / ?u\<bar> * ?u = \<bar>fl x - x\<bar>"
  proof -
    have "\<bar>of_int (rne (x / ?u)) - x / ?u\<bar> * ?u = \<bar>(of_int (rne (x / ?u)) - x / ?u) * ?u\<bar>"
      using u by (simp add: abs_mult)
    also have "(of_int (rne (x / ?u)) - x / ?u) * ?u = fl x - x"
      using u by (simp add: fl left_diff_distrib)
    finally show ?thesis .
  qed
  ultimately show ?thesis by simp
qed

lemma fl_error:
  assumes "0 < x"
  shows "\<bar>fl x - x\<bar> \<le> x / 2 ^ 53"
proof -
  have "pow2 52 = 2 ^ 52" by (simp add: pow2_def)
  then have "pow2 (ilog2 x - 52) = pow2 (ilog2 x) / 2 ^ 52"
    by (simp only: pow2_diff)
  moreover have "pow2 (ilog2 x) \<le> x"
    using assms by (rule ilog2_lower)
  ultimately show ?thesis
    using fl_error_ulp [OF assms] by (simp add: field_simps)
qed

lemma fl_nonneg: "0 \<le> x \<Longrightarrow> 0 \<le> fl x"
  using pow2_pos [of "ilog2 \<bar>x\<bar> - 52"]
  by (auto simp: fl_def Let_def intro!: mult_nonneg_nonneg rne_nonneg divide_nonneg_pos)

lemma fl_zero: "fl 0 = 0"
  by (simp add: fl_def)

lemma rne_of_int: "rne (of_int k) = k"
  by (simp add: rne_def)

lemma pow2_mono: "a \<le> b \<Longrightarrow> pow2 a \<le> pow2 b"
  by (simp add: pow2_powi power_int_increasing)

lemma pow2_less_imp: "pow2 a < pow2 b \<Longrightarrow> a < b"
  using pow2_mono [of b a] by (cases "a < b") auto

lemma number_of_nat_exact:
  assumes "n < 2 ^ 53"
  shows "number_of_nat n = of_nat n"
proof (cases "n = 0")
  case True
  then show ?thesis by (simp add: number_of_nat_def fl_zero)
next
  case False
  let ?x = "of_nat n :: rat"
  let ?e = "ilog2 ?x"
  from False have pos: "0 < ?x" by simp
  have "?x < 2 ^ 53"
    using assms by (metis of_nat_less_iff of_nat_numeral of_nat_power)
  with ilog2_lower [OF pos] have "pow2 ?e < pow2 53"
    by (simp add: pow2_def [of 53])
  then have e: "?e \<le> 52"
    using pow2_mono [of 53 ?e] by (cases "?e \<le> 52") auto
  define k where "k = nat (52 - ?e)"
  have u: "pow2 (?e - 52) = 1 / 2 ^ k"
    using e by (cases "?e = 52") (simp_all add: pow2_def k_def)
  have "?x / pow2 (?e - 52) = of_int (int n * 2 ^ k)"
    by (simp add: u)
  then have "rne (?x / pow2 (?e - 52)) = int n * 2 ^ k"
    by (simp only: rne_of_int)
  then show ?thesis
    using pos by (simp add: number_of_nat_def fl_def Let_def u)
qed

lemma fl_coarse:
  assumes "0 \<le> x"
  shows "x * (999 / 1000) \<le> fl x" and "fl x \<le> x * (1001 / 1000)"
proof -
  have "x * (999 / 1000) \<le> fl x \<and> fl x \<le> x * (1001 / 1000)"
  proof (cases "x = 0")
    case True
    then show ?thesis by (simp add: fl_zero)
  next
    case False
    with assms have pos: "0 < x" by simp
    have "x / 2 ^ 53 \<le> x / 1000"
      using pos by (intro divide_left_mono) simp_all
    with fl_error [OF pos] have "\<bar>fl x - x\<bar> \<le> x / 1000" by linarith
    then have "fl x - x \<le> x / 1000" and "- (x / 1000) \<le> fl x - x"
      by linarith+
    then show ?thesis by (simp add: field_simps)
  qed
  then show "x * (999 / 1000) \<le> fl x" and "fl x \<le> x * (1001 / 1000)" by simp_all
qed

lemma number_of_nat_pos: "0 < t \<Longrightarrow> 0 < number_of_nat t"
proof -
  assume "0 < t"
  then have "0 < (of_nat t :: rat) * (999 / 1000)" by simp
  also have "\<dots> \<le> fl (of_nat t)" by (rule fl_coarse) simp
  finally show ?thesis by (simp add: number_of_nat_def)
qed

lemma percentage_bounds:
  assumes "0 < t" and "l \<le> t"
  shows "0 \<le> js_div (js_mul (number_of_nat l) 100) (number_of_nat t)"
    and "js_div (js_mul (number_of_nat l) 100) (number_of_nat t) < 201 / 2"
proof -
  let ?l = "number_of_nat l" and ?t = "number_of_nat t"
  let ?a = "js_mul ?l 100"
  have l0: "0 \<le> ?l" by (simp add: number_of_nat_def fl_nonneg)
  have l1: "?l \<le> of_nat l * (1001 / 1000)"
    unfolding number_of_nat_def by (rule fl_coarse) simp
  have a0: "0 \<le> ?a" using l0 by (simp add: js_mul_def fl_nonneg)
  have "?a \<le> (?l * 100) * (1001 / 1000)"
    unfolding js_mul_def by (rule fl_coarse) (use l0 in simp)
  with l1 have a1: "?a \<le> of_nat l * (100 * (1001 / 1000) * (1001 / 1000))" by simp
  have t0: "0 < ?t" using assms(1) by (rule number_of_nat_pos)
  have t1: "of_nat t * (999 / 1000) \<le> ?t"
    unfolding number_of_nat_def by (rule fl_coarse) simp
  have q0: "0 \<le> ?a / ?t" using a0 t0 by simp
  have lt: "(of_nat l :: rat) \<le> of_nat t" using assms(2) by simp
  have tpos: "(0::rat) < of_nat t" using assms(1) by simp
  have "of_nat l * (100 * (1001 / 1000) * (1001 / 1000)) \<le>
      (of_nat t :: rat) * (100 * (1001 / 1000) * (1001 / 1000))"
    using lt by (intro mult_right_mono) simp_all
  with a1 have "?a \<le> of_nat t * (100 * (1001 / 1000) * (1001 / 1000))"
    by (rule order_trans)
  also have "\<dots> = (of_nat t * (999 / 1000)) * (100 * (1001 / 1000) * (1001 / 1000) / (999 / 1000))"
    by simp
  also have "\<dots> \<le> ?t * (100 * (1001 / 1000) * (1001 / 1000) / (999 / 1000))"
    using t1 by (intro mult_right_mono) simp_all
  finally have "?a / ?t \<le> 100 * (1001 / 1000) * (1001 / 1000) / (999 / 1000)"
    using t0 by (simp add: pos_divide_le_eq mult.commute)
  moreover have "js_div ?a ?t \<le> (?a / ?t) * (1001 / 1000)"
    unfolding js_div_def using q0 by (rule fl_coarse)
  ultimately have "js_div ?a ?t \<le> 100 * (1001 / 1000) * (1001 / 1000) / (999 / 1000) * (1001 / 1000)"
    by simp
  then show "js_div ?a ?t < 201 / 2" by simp
  show "0 \<le> js_div ?a ?t" unfolding js_div_def using q0 by (rule fl_nonneg)
qed

lemma Math_round_percentage:
  assumes "0 < t" and "l \<le> t"
  shows "0 \<le> Math_round (js_div (js_mul (number_of_nat l) 100) (number_of_nat t))"
    and "Math_round (js_div (js_mul (number_of_nat l) 100) (number_of_nat t)) \<le> 100"
  using percentage_bounds [OF assms] unfolding Math_round_def by linarith+

lemma fl_exact:
  assumes "0 < m" and "m < 2 ^ 53"
  shows "fl (of_int m * pow2 e) = of_int m * pow2 e"
proof -
  define x :: rat where "x = of_int m * pow2 e"
  define u where "u = pow2 (ilog2 x - 52)"
  have pos: "0 < x"
    using assms(1) pow2_pos [of e] by (simp add: x_def)
  have u: "0 < u"
    by (simp add: u_def pow2_pos)
  have "(of_int m :: rat) < 2 ^ 53"
    using assms(2) by (metis of_int_less_iff of_int_numeral of_int_power)
  then have "x < 2 ^ 53 * pow2 e"
    using pow2_pos [of e] by (simp add: x_def)
  also have "\<dots> = pow2 (53 + e)"
    by (simp add: pow2_add pow2_def [of 53])
  finally have "pow2 (ilog2 x) < pow2 (53 + e)"
    using ilog2_lower [OF pos] by simp
  then have "ilog2 x < 53 + e"
    by (rule pow2_less_imp)
  then have k: "0 \<le> e - (ilog2 x - 52)" by simp
  define k where "k = nat (e - (ilog2 x - 52))"
  have "pow2 e = pow2 ((ilog2 x - 52) + (e - (ilog2 x - 52)))"
    by simp
  also have "\<dots> = u * pow2 (e - (ilog2 x - 52))"
    unfolding u_def by (rule pow2_add)
  also have "pow2 (e - (ilog2 x - 52)) = 2 ^ k"
    using k by (simp add: pow2_def k_def)
  finally have e: "pow2 e = u * 2 ^ k" .
  have xu: "x = of_int (m * 2 ^ k) * u"
    by (simp add: x_def e)
  then have "x / u = of_int (m * 2 ^ k)"
    using u by simp
  then have "rne (x / u) = m * 2 ^ k"
    by (simp only: rne_of_int)
  then have "fl x = of_int (m * 2 ^ k) * u"
    using pos by (simp add: fl_def Let_def u_def)
  also have "\<dots> = x"
    by (simp only: xu)
  finally show ?thesis
    by (simp only: x_def)
qed

lemma ilog2_le_6:
  assumes "0 < x" and "x < 128"
  shows "ilog2 x \<le> 6"
proof -
  have "pow2 (ilog2 x) < pow2 7"
    using ilog2_lower [OF assms(1)] assms(2) by (simp add: pow2_def [of 7])
  then have "ilog2 x < 7" by (rule pow2_less_imp)
  then show ?thesis by simp
qed

lemma fl_error_small:
  assumes "0 < x" and "x < 128"
  shows "\<bar>fl x - x\<bar> \<le> 1 / 2 ^ 47"
proof -
  have "pow2 (ilog2 x - 52) \<le> pow2 (- 46)"
    using ilog2_le_6 [OF assms] by (intro pow2_mono) simp
  also have "\<dots> = 1 / 2 ^ 46" by (simp add: pow2_def)
  finally show ?thesis
    using fl_error_ulp [OF assms(1)] by simp
qed

lemma floor_near_quotient:
  fixes y :: rat
  assumes B: "0 < B" and d: "\<bar>y - of_int A / of_int B\<bar> < 1 / of_int B"
    and r: "A mod B \<noteq> 0"
  shows "\<lfloor>y\<rfloor> = A div B"
proof -
  let ?k = "A div B" and ?r = "A mod B"
  have Bq: "(0::rat) < of_int B" using B by simp
  have A: "A = ?k * B + ?r" by simp
  have "(of_int A :: rat) = of_int ?k * of_int B + of_int ?r"
    by (metis A of_int_add of_int_mult)
  then have q: "of_int A / of_int B = of_int ?k + (of_int ?r :: rat) / of_int B"
    using Bq by (simp add: field_simps)
  have "1 \<le> ?r" and "?r \<le> B - 1"
    using B r pos_mod_sign [of B A] pos_mod_bound [of B A] by linarith+
  then have "(1::rat) \<le> of_int ?r" and "(of_int ?r :: rat) \<le> of_int B - 1"
    by (metis of_int_1 of_int_le_iff, metis of_int_1 of_int_diff of_int_le_iff)
  then have "1 / of_int B \<le> (of_int ?r :: rat) / of_int B"
    and "(of_int ?r :: rat) / of_int B \<le> 1 - 1 / of_int B"
    using Bq by (simp_all add: field_simps)
  with d q have "of_int ?k \<le> y" and "y < of_int ?k + 1"
    by linarith+
  then show ?thesis
    by (rule floor_unique)
qed

lemma Math_round_percentage_exact:
  assumes "0 < t" and "t < 2 ^ 46" and "l \<le> t"
  shows "Math_round (js_div (js_mul (number_of_nat l) 100) (number_of_nat t)) =
           \<lfloor>(of_nat l * 100 :: rat) / of_nat t + 1 / 2\<rfloor>"
proof -
  define x :: rat where "x = of_nat l * 100 / of_nat t"
  have "l < 2 ^ 46" using assms(2,3) by simp
  then have "l * 100 < 2 ^ 46 * 128" by simp
  then have l100: "l * 100 < 2 ^ 53" by simp
  then have "l < 2 ^ 53" by simp
  then have nl: "number_of_nat l = of_nat l" by (rule number_of_nat_exact)
  have "t < 2 ^ 53" using assms(2) by (simp add: order_less_trans [of t "2 ^ 46"])
  then have nt: "number_of_nat t = of_nat t" by (rule number_of_nat_exact)
  have "js_mul (of_nat l) 100 = number_of_nat (l * 100)"
    by (simp add: js_mul_def number_of_nat_def)
  also have "\<dots> = of_nat (l * 100)" using l100 by (rule number_of_nat_exact)
  finally have lhs: "js_div (js_mul (number_of_nat l) 100) (number_of_nat t) = fl x"
    by (simp add: nl nt js_div_def x_def)
  have tq: "(0::rat) < of_nat t" using assms(1) by simp
  have "\<lfloor>fl x + 1 / 2\<rfloor> = \<lfloor>x + 1 / 2\<rfloor>"
  proof (cases "l = 0")
    case True
    then show ?thesis by (simp add: x_def fl_zero)
  next
    case False
    then have xpos: "0 < x" using tq by (simp add: x_def)
    have "(of_nat l :: rat) \<le> of_nat t" using assms(3) by simp
    then have x100: "x \<le> 100" using tq by (simp add: x_def field_simps)
    then have xerr: "\<bar>fl x - x\<bar> \<le> 1 / 2 ^ 47"
      using xpos by (intro fl_error_small) simp_all
    define A where "A = int (200 * l + t)"
    define B where "B = int (2 * t)"
    have B: "0 < B" using assms(1) by (simp add: B_def)
    have q: "x + 1 / 2 = of_int A / of_int B"
      using tq by (simp add: x_def A_def B_def field_simps)
    have fq: "\<lfloor>x + 1 / 2\<rfloor> = A div B"
      unfolding q by (rule floor_divide_of_int_eq)
    show ?thesis
    proof (cases "A mod B = 0")
      case True
      then have "A = (A div B) * B"
        by (metis add.right_neutral div_mult_mod_eq)
      then have "(of_int A :: rat) = of_int (A div B) * of_int B"
        by (metis of_int_mult)
      then have "x + 1 / 2 = of_int (A div B)"
        using B by (simp add: q)
      then have xk: "x = of_int (2 * (A div B) - 1) * pow2 (- 1)"
        by (simp add: pow2_def field_simps)
      have "0 < 2 * (A div B) - 1"
      proof -
        have "(0::rat) < of_int (2 * (A div B) - 1) * pow2 (- 1)" using xpos xk by simp
        then have "(0::rat) < of_int (2 * (A div B) - 1)"
          using pow2_pos [of "- 1"] by (simp add: zero_less_mult_iff)
        then show ?thesis by simp
      qed
      moreover have "2 * (A div B) - 1 < 2 ^ 53"
      proof -
        have "of_int (2 * (A div B) - 1) * pow2 (- 1) \<le> (100::rat)" using x100 xk by simp
        then have "(of_int (2 * (A div B) - 1) :: rat) \<le> 200" by (simp add: pow2_def)
        then have "2 * (A div B) - 1 \<le> 200" by linarith
        then show ?thesis by simp
      qed
      ultimately have "fl x = x"
        unfolding xk by (rule fl_exact)
      then show ?thesis by simp
    next
      case False
      have "B < 2 ^ 47"
        using assms(2) by (simp add: B_def)
      then have "(of_int B :: rat) < 2 ^ 47"
        by (metis of_int_less_iff of_int_numeral of_int_power)
      then have "1 / 2 ^ 47 < 1 / (of_int B :: rat)"
        using B by (simp add: field_simps)
      with xerr have "\<bar>(fl x + 1 / 2) - of_int A / of_int B\<bar> < 1 / of_int B"
        by (simp add: q [symmetric])
      with B have "\<lfloor>fl x + 1 / 2\<rfloor> = A div B"
        using False by (rule floor_near_quotient)
      then show ?thesis by (simp add: fq)
    qed
  qed
  then show ?thesis
    by (simp add: Math_round_def lhs x_def)
qed

lemma floor_rat_numeral_div:
  "\<lfloor>(numeral a :: rat) / numeral b\<rfloor> = numeral a div numeral b"
  using floor_divide_of_int_eq [of "numeral a" "numeral b", where ?'a = rat] by simp

lemma ceiling_rat_numeral_div:
  "\<lceil>(numeral a :: rat) / numeral b\<rceil> = - (- numeral a div numeral b)"
  using floor_divide_of_int_eq [of "- numeral a" "numeral b", where ?'a = rat]
  by (simp add: ceiling_def)

lemmas number_eval =
  fl_def ilog2_def pow2_def rne_def Let_def compute_bitlen
  floor_rat_numeral_div ceiling_rat_numeral_div

lemma onUploadProgress_ok:
  assumes "bounded_event ev" and "progress_ok st"
  shows "progress_ok (onUploadProgress ev st)"
proof (cases "total ev")
  case None
  then show ?thesis using assms(2) by (simp add: onUploadProgress_def)
next
  case (Some t)
  show ?thesis
  proof (cases "t = 0")
    case True
    then show ?thesis
      using Some assms(2) by (simp add: onUploadProgress_def number_of_nat_def fl_zero)
  next
    case False
    then have t: "0 < t" by simp
    have l: "loaded ev \<le> t"
      using assms(1) Some by (simp add: bounded_event_def)
    have "number_of_nat t \<noteq> 0"
      using number_of_nat_pos [OF t] by simp
    then show ?thesis
      using Some Math_round_percentage [OF t l]
      by (simp add: onUploadProgress_def progress_ok_def)
  qed
qed

lemma fold_onUploadProgress_ok:
  "list_all bounded_event evs \<Longrightarrow> progress_ok st \<Longrightarrow> progress_ok (fold onUploadProgress evs st)"
  by (induction evs arbitrary: st) (simp_all add: onUploadProgress_ok)

lemma list_all_take: "list_all P xs \<Longrightarrow> list_all P (take n xs)"
  by (auto simp: list_all_iff dest: in_set_takeD)

text \<open>
  C10. A run of \<^verbatim>\<open>handleUpload\<close> sets the displayed progress to 0 before the request goes
  out, and after any number of progress events, each reporting no total or no more bytes
  sent than its total, the progress is an integer from 0 to 100. An event with a total
  \<open>t > 0\<close> and \<open>loaded \<le> t\<close> sets the progress to
  \<^verbatim>\<open>Math.round((loaded * 100) / total)\<close>, computed in binary64, and that value lies between 0
  and 100; for a total below \<open>2 ^ 46\<close> bytes it is the exact quotient rounded to the
  nearest integer, halves up. A total of 0 is falsy: the handler skips the event, as it
  does when the total is undefined.
\<close>

theorem upload_progress_range:
  assumes "list_all bounded_event evs"
  shows "uploadProgress (fst (handleUpload_start (st\<lparr>fileSel := Some f\<rparr>))) = 0 \<and>
         progress_ok
           (fold onUploadProgress (take n evs) (fst (handleUpload_start (st\<lparr>fileSel := Some f\<rparr>)))) \<and>
         (total ev = Some t \<and> 0 < t \<and> loaded ev \<le> t \<longrightarrow>
            uploadProgress (onUploadProgress ev st') =
              of_int (Math_round (js_div (js_mul (number_of_nat (loaded ev)) 100) (number_of_nat t))) \<and>
            0 \<le> Math_round (js_div (js_mul (number_of_nat (loaded ev)) 100) (number_of_nat t)) \<and>
            Math_round (js_div (js_mul (number_of_nat (loaded ev)) 100) (number_of_nat t)) \<le> 100) \<and>
         (total ev = Some t \<and> 0 < t \<and> t < 2 ^ 46 \<and> loaded ev \<le> t \<longrightarrow>
            uploadProgress (onUploadProgress ev st') =
              of_int \<lfloor>(of_nat (loaded ev) * 100 :: rat) / of_nat t + 1 / 2\<rfloor>) \<and>
         onUploadProgress \<lparr>loaded = l, total = None\<rparr> st' = st' \<and>
         onUploadProgress \<lparr>loaded = l, total = Some 0\<rparr> st' = st'"
proof -
  let ?st1 = "fst (handleUpload_start (st\<lparr>fileSel := Some f\<rparr>))"
  have init: "uploadProgress ?st1 = 0"
    by (simp add: handleUpload_start_def)
  then have "progress_ok ?st1"
    by (simp add: progress_ok_def)
  then have run: "progress_ok (fold onUploadProgress (take n evs) ?st1)"
    using assms by (intro fold_onUploadProgress_ok list_all_take)
  have step: "uploadProgress (onUploadProgress ev st') =
        of_int (Math_round (js_div (js_mul (number_of_nat (loaded ev)) 100) (number_of_nat t))) \<and>
      0 \<le> Math_round (js_div (js_mul (number_of_nat (loaded ev)) 100) (number_of_nat t)) \<and>
      Math_round (js_div (js_mul (number_of_nat (loaded ev)) 100) (number_of_nat t)) \<le> 100"
    if "total ev = Some t" "0 < t" "loaded ev \<le> t"
  proof -
    have "number_of_nat t \<noteq> 0"
      using number_of_nat_pos [OF that(2)] by simp
    then show ?thesis
      using that(1) Math_round_percentage [OF that(2,3)] by (simp add: onUploadProgress_def)
  qed
  have skip: "onUploadProgress \<lparr>loaded = l, total = None\<rparr> st' = st'"
    "onUploadProgress \<lparr>loaded = l, total = Some 0\<rparr> st' = st'"
    by (simp_all add: onUploadProgress_def number_of_nat_def fl_zero)
  have exact: "uploadProgress (onUploadProgress ev st') =
      of_int \<lfloor>(of_nat (loaded ev) * 100 :: rat) / of_nat t + 1 / 2\<rfloor>"
    if "total ev = Some t" "0 < t" "t < 2 ^ 46" "loaded ev \<le> t"
    using step [OF that(1,2,4)] Math_round_percentage_exact [OF that(2,3,4)] by simp
  show ?thesis
    using init run step skip exact by blast
qed

lemma number_of_nat_2: "number_of_nat 2 = 2"
  by (simp add: number_of_nat_def number_eval)

lemma number_of_nat_3: "number_of_nat 3 = 3"
  by (simp add: number_of_nat_def number_eval)

lemma js_mul_2_100: "js_mul 2 100 = 200"
  by (simp add: js_mul_def number_eval)

lemma js_mul_3_100: "js_mul 3 100 = 300"
  by (simp add: js_mul_def number_eval)

lemma js_div_200_3: "js_div 200 3 = 4691249611844267 / 2 ^ 46"
  by (simp add: js_div_def number_eval)

lemma js_div_300_3: "js_div 300 3 = 100"
  by (simp add: js_div_def number_eval)

lemma two_thirds: "onUploadProgress \<lparr>loaded = 2, total = Some 3\<rparr> st = st\<lparr>uploadProgress := 67\<rparr>"
  by (simp add: onUploadProgress_def number_of_nat_2 number_of_nat_3 js_mul_2_100 js_div_200_3
      Math_round_def floor_rat_numeral_div)

lemma whole: "onUploadProgress \<lparr>loaded = 3, total = Some 3\<rparr> st = st\<lparr>uploadProgress := 100\<rparr>"
  by (simp add: onUploadProgress_def number_of_nat_3 js_mul_3_100 js_div_300_3
      Math_round_def floor_rat_numeral_div)

theorem upload_progress_range_witness:
  "progress_ok
     (fold onUploadProgress
        (take 1 [\<lparr>loaded = 2, total = Some 3\<rparr>, \<lparr>loaded = 3, total = Some 3\<rparr>])
        (fst (handleUpload_start (initial\<lparr>fileSel := Some
           \<lparr>file_name = ''preds.csv'', file_type = ''text/csv'', file_size = 10,
            file_text = ''walmart_id''\<rparr>\<rparr>)))) \<and>
   uploadProgress (onUploadProgress \<lparr>loaded = 2, total = Some 3\<rparr> initial) = 67 \<and>
   Math_round (js_div (js_mul (number_of_nat 2) 100) (number_of_nat 3)) = 67"
  using upload_progress_range
    [where evs = "[\<lparr>loaded = 2, total = Some 3\<rparr>, \<lparr>loaded = 3, total = Some 3\<rparr>]"
       and st = initial
       and f = "\<lparr>file_name = ''preds.csv'', file_type = ''text/csv'', file_size = 10,
                file_text = ''walmart_id''\<rparr>"
       and n = 1 and ev = "\<lparr>loaded = 2, total = Some 3\<rparr>" and t = 3 and st' = initial]
  by (simp add: bounded_event_def two_thirds number_of_nat_2 number_of_nat_3 js_mul_2_100
      js_div_200_3 Math_round_def floor_rat_numeral_div)

lemma number_of_decimal_87_2: "number_of_decimal 87 2 = 7836263351624663 / 2 ^ 53"
  by (simp add: number_of_decimal_def number_eval)

lemma number_of_decimal_3_0: "number_of_decimal 3 0 = 3"
  by (simp add: number_of_decimal_def number_eval)

lemma js_mul_87: "js_mul (number_of_decimal 87 2) 100 = 87"
  unfolding number_of_decimal_87_2 by (simp add: js_mul_def number_eval)

lemma toFixed_2_87: "toFixed 2 87 = Some ''87.00''"
  unfolding toFixed_def Let_def by (simp add: decimal.simps digit_def floor_rat_numeral_div)

lemma Number_toString_3: "Number_toString 3 = Some ''3''"
  unfolding Number_toString_def by (simp add: decimal.simps digit_def)

text \<open>
  C6. After an upload that succeeds with a body whose \<^verbatim>\<open>item_accuracy\<close> is the number
  0.87 and whose \<^verbatim>\<open>submissionsRemaining\<close> is 3, \<^verbatim>\<open>result\<close> holds that body, the item
  accuracy element reads "87.00%" (the binary64 product of 0.87 and 100 is exactly 87,
  printed with two decimals) and the remaining submissions element reads "3".
\<close>

theorem result_card_shows_accuracy:
  "result (snd (handleUpload L evs
     (Resolved (r\<lparr>item_accuracy := number_of_decimal 87 2,
                  submissionsRemaining := number_of_decimal 3 0\<rparr>))
     (st\<lparr>fileSel := Some f\<rparr>))) =
     Some (r\<lparr>item_accuracy := number_of_decimal 87 2,
              submissionsRemaining := number_of_decimal 3 0\<rparr>) \<and>
   itemAccuracyText (r\<lparr>item_accuracy := number_of_decimal 87 2,
                        submissionsRemaining := number_of_decimal 3 0\<rparr>) = Some ''87.00%'' \<and>
   submissionsRemainingText (r\<lparr>item_accuracy := number_of_decimal 87 2,
                                submissionsRemaining := number_of_decimal 3 0\<rparr>) = Some ''3''"
  by (simp add: handleUpload_def handleUpload_start_def handleUpload_then_def toast_success_def
      Let_def itemAccuracyText_def submissionsRemainingText_def js_mul_87 toFixed_2_87
      number_of_decimal_3_0 Number_toString_3)

section \<open>Properties of the leaderboard\<close>

lemma leaderboard_handle_ok: "timers_ok st \<Longrightarrow> timers_ok (leaderboard_handle ev st)"
  by (cases ev)
    (auto simp: timers_ok_def effect_mount_def effect_cleanup_def setInterval_def
      clearInterval_def fetchLeaderboard_start_def timer_fires_def handleRefresh_def
      fetchLeaderboard_then_def fetchLeaderboard_catch_def Let_def split: option.splits)

lemma fold_leaderboard_handle_ok:
  "timers_ok st \<Longrightarrow> timers_ok (fold leaderboard_handle evs st)"
  by (induction evs arbitrary: st) (simp_all add: leaderboard_handle_ok)

lemma leaderboard_run_ok: "timers_ok (leaderboard_run evs)"
  unfolding leaderboard_run_def
  by (rule fold_leaderboard_handle_ok) (simp add: timers_ok_def leaderboard_initial_def)

lemma unmounted_after_Unmount: "timers_ok st \<Longrightarrow> unmounted (leaderboard_handle Unmount st)"
  by (auto simp: timers_ok_def unmounted_def effect_cleanup_def clearInterval_def
      split: option.splits)

lemma unmounted_step:
  assumes "unmounted st" and "ev \<noteq> Mount"
  shows "unmounted (leaderboard_handle ev st) \<and>
         fetches (leaderboard_handle ev st) = fetches st"
  using assms
  by (cases ev)
    (auto simp: unmounted_def effect_cleanup_def timer_fires_def
      fetchLeaderboard_then_def fetchLeaderboard_catch_def Let_def split: option.splits)

lemma unmounted_fold:
  assumes "unmounted st" and "Mount \<notin> set evs"
  shows "unmounted (fold leaderboard_handle evs st) \<and>
         fetches (fold leaderboard_handle evs st) = fetches st"
  using assms
proof (induction evs arbitrary: st)
  case Nil
  then show ?case by simp
next
  case (Cons ev evs)
  then have "ev \<noteq> Mount" and "Mount \<notin> set evs" by auto
  with Cons.prems(1) unmounted_step [of st ev] Cons.IH [of "leaderboard_handle ev st"]
  show ?case by simp
qed

text \<open>
  C9. In every run of the leaderboard component, unmounting leaves no interval
  registered. From then on, as long as the component is not mounted again, no event
  issues a request: timers that fire, whatever their ids, and responses that arrive late
  leave the number of \<^verbatim>\<open>GET /leaderboard\<close> requests as it was at the unmount.
\<close>

theorem no_refresh_after_unmount:
  assumes "Mount \<notin> set later"
  shows "timers (leaderboard_handle Unmount (leaderboard_run evs)) = [] \<and>
         fetches (fold leaderboard_handle (map TimerFires ids)
                    (leaderboard_handle Unmount (leaderboard_run evs))) =
           fetches (leaderboard_handle Unmount (leaderboard_run evs)) \<and>
         fetches (fold leaderboard_handle later
                    (leaderboard_handle Unmount (leaderboard_run evs))) =
           fetches (leaderboard_handle Unmount (leaderboard_run evs))"
proof -
  let ?st = "leaderboard_handle Unmount (leaderboard_run evs)"
  have u: "unmounted ?st"
    by (rule unmounted_after_Unmount) (rule leaderboard_run_ok)
  have "Mount \<notin> set (map TimerFires ids)"
    by auto
  with u have "fetches (fold leaderboard_handle (map TimerFires ids) ?st) = fetches ?st"
    using unmounted_fold by blast
  moreover have "fetches (fold leaderboard_handle later ?st) = fetches ?st"
    using u assms unmounted_fold by blast
  ultimately show ?thesis
    using u by (simp add: unmounted_def)
qed

theorem no_refresh_after_unmount_witness:
  "fetches (leaderboard_run [Mount, TimerFires 0, Unmount] :: unit LeaderboardState) = 2 \<and>
   fetches (fold leaderboard_handle [TimerFires 0, FetchResolved None 5, TimerFires 0]
     (leaderboard_handle Unmount (leaderboard_run [Mount, TimerFires 0]))
     :: unit LeaderboardState) = 2"
  using no_refresh_after_unmount
    [where later = "[TimerFires 0, FetchResolved None 5, TimerFires 0]"
       and evs = "[Mount, TimerFires 0] :: unit leaderboard_event list" and ids = "[]"]
  by (simp add: leaderboard_run_def leaderboard_initial_def effect_mount_def setInterval_def
      fetchLeaderboard_start_def timer_fires_def effect_cleanup_def clearInterval_def)

end
